theory Spec2Isabelle
  imports Complex_Main
begin

section \<open>Data model of \<^verbatim>\<open>blocks/graph.py\<close>\<close>

text \<open>
  Theano variables, their \<^verbatim>\<open>tag\<close> scratchpads and \<^verbatim>\<open>Annotation\<close> instances are
  Python objects compared and hashed by identity (none of them overrides
  \<^verbatim>\<open>__eq__\<close> or \<^verbatim>\<open>__hash__\<close> here), so each is a reference into a store.
\<close>

type_synonym var = nat
type_synonym tag_ref = nat
type_synonym ann_ref = nat
type_synonym cls = nat

text \<open>Python dictionaries that keep insertion order, and dictionaries that are only
  built by item assignment, are association lists with one entry per key.\<close>

type_synonym ('k, 'v) odict = "('k \<times> 'v) list"

datatype role = AUXILIARY | Role nat

datatype error = ValueError | AttributeError

text \<open>The attributes of a \<^verbatim>\<open>tag\<close> object; \<open>None\<close> is an attribute that was never set,
  which the code probes with \<^verbatim>\<open>getattr(..., default)\<close> and \<^verbatim>\<open>hasattr\<close>.\<close>

record tag =
  annotations :: "ann_ref list option"
  roles :: "role list option"
  tag_name :: "string option"

text \<open>\<^verbatim>\<open>class Annotation\<close>: \<open>ann_class\<close> is \<^verbatim>\<open>__class__\<close>, the concrete (sub)class.\<close>

record annotation =
  ann_class :: cls
  auxiliary_variables :: "var list"
  updates :: "(var, var) odict"

text \<open>What theano records about a variable: the apply node that owns it, and whether it is
  a plain tensor variable, a shared variable (with the shape of its current value) or a
  constant.\<close>

datatype op =
    Op string
  | Subtensor nat nat
  | Reshape "nat list"
  | Shape
  | Add
  | Normal int nat real

record apply_node =
  op :: op
  inputs :: "var list"

datatype kind = TensorVariable | SharedVariable "nat list" | Constant

record heap =
  next_var :: var
  next_tag :: tag_ref
  owner :: "var \<Rightarrow> apply_node option"
  kind :: "var \<Rightarrow> kind"
  var_name :: "var \<Rightarrow> string option"
  var_tag :: "var \<Rightarrow> tag_ref"
  tags :: "tag_ref \<Rightarrow> tag"
  anns :: "ann_ref \<Rightarrow> annotation"

section \<open>Annotations\<close>

text \<open>\<^verbatim>\<open>getattr(var.tag, 'annotations', [])\<close>\<close>

definition get_annotations :: "heap \<Rightarrow> var \<Rightarrow> ann_ref list" where
  "get_annotations h v =
     (case annotations (tags h (var_tag h v)) of None \<Rightarrow> [] | Some l \<Rightarrow> l)"

definition add_annotation :: "var \<Rightarrow> ann_ref \<Rightarrow> heap \<Rightarrow> error + heap" where
  "add_annotation v a h =
     (let l = get_annotations h v in
      if list_ex (\<lambda>old_annotation. ann_class (anns h old_annotation) = ann_class (anns h a)) l
      then Inl ValueError
      else Inr (h\<lparr>tags := (tags h)(var_tag h v :=
                  (tags h (var_tag h v))\<lparr>annotations := Some (l @ [a])\<rparr>)\<rparr>))"

section \<open>Sets used as filters, ordered dictionaries\<close>

text \<open>
  The comprehension \<^verbatim>\<open>[x for x in xs if not (x in seen or seen.add(x))]\<close>: it keeps the
  elements that are not in \<open>seen\<close> yet, each at its first occurrence, and leaves every kept
  element in \<open>seen\<close>. The set is only ever asked for membership.
\<close>

fun unseen :: "'a list \<Rightarrow> 'a set \<Rightarrow> 'a list \<times> 'a set" where
  "unseen [] seen = ([], seen)"
| "unseen (x # xs) seen =
     (if x \<in> seen then unseen xs seen
      else (case unseen xs (insert x seen) of (ys, seen') \<Rightarrow> (x # ys, seen')))"

text \<open>\<^verbatim>\<open>d[k] = v\<close>: an existing key keeps its place, a new key goes to the end.\<close>

fun od_setitem :: "('k, 'v) odict \<Rightarrow> 'k \<Rightarrow> 'v \<Rightarrow> ('k, 'v) odict" where
  "od_setitem [] k v = [(k, v)]"
| "od_setitem ((k', v') # d) k v =
     (if k' = k then (k, v) # d else (k', v') # od_setitem d k v)"

text \<open>\<^verbatim>\<open>d.update(pairs)\<close> and \<^verbatim>\<open>OrderedDict(pairs)\<close>: the pairs are assigned in order.\<close>

definition od_update :: "('k, 'v) odict \<Rightarrow> ('k \<times> 'v) list \<Rightarrow> ('k, 'v) odict" where
  "od_update d pairs = fold (\<lambda>(k, v) d. od_setitem d k v) pairs d"

definition OrderedDict :: "('k \<times> 'v) list \<Rightarrow> ('k, 'v) odict" where
  "OrderedDict pairs = od_update [] pairs"

text \<open>
  Modelled from the spec: \<^verbatim>\<open>dict_union\<close> of \<^verbatim>\<open>blocks.utils\<close>, which is not among the
  sources. The specification describes it as a dictionary union in which later entries
  silently overwrite earlier ones: a new dictionary that receives the entries of the first
  argument and then those of the second.
\<close>

definition dict_union :: "('k, 'v) odict \<Rightarrow> ('k, 'v) odict \<Rightarrow> ('k, 'v) odict" where
  "dict_union a b = od_update (od_update [] a) b"

section \<open>The primitives of theano\<close>

text \<open>
  The traversal, sorting and cloning functions of theano are not part of the repository:
  they are parameters. The traversals read the apply edges of the graph only;
  \<^verbatim>\<open>theano.clone\<close> reads the variables and creates new ones.
\<close>

record theano =
  graph_inputs :: "(var \<Rightarrow> apply_node option) \<Rightarrow> var list \<Rightarrow> var list"
  sort_apply_nodes ::
    "(var \<Rightarrow> apply_node option) \<Rightarrow> var list list \<Rightarrow> var list \<Rightarrow> apply_node list"
  clone :: "heap \<Rightarrow> var list \<Rightarrow> (var, var) odict \<Rightarrow> var list \<times> heap"

text \<open>Creating a variable: a new identity with a new, empty tag.\<close>

definition empty_tag :: tag where
  "empty_tag = \<lparr>annotations = None, roles = None, tag_name = None\<rparr>"

definition new_variable :: "apply_node option \<Rightarrow> kind \<Rightarrow> heap \<Rightarrow> var \<times> heap" where
  "new_variable ow k h =
     (let v = next_var h; t = next_tag h in
      (v, h\<lparr>next_var := Suc v, next_tag := Suc t,
            owner := (owner h)(v := ow), kind := (kind h)(v := k),
            var_name := (var_name h)(v := None),
            var_tag := (var_tag h)(v := t), tags := (tags h)(t := empty_tag)\<rparr>))"

section \<open>ComputationGraph\<close>

record computation_graph =
  outputs :: "var list"
  variables :: "var list"
  cg_updates :: "(var, var) odict"

text \<open>\<^verbatim>\<open>ComputationGraph\<close> instances live in a store of their own, a reference is an index;
  theano never sees them.\<close>

type_synonym cg_ref = nat

record state =
  hp :: heap
  cgs :: "computation_graph list"

text \<open>The inner loop of \<^verbatim>\<open>_get_variables\<close>, over the annotations of one variable. The loop
  state is \<^verbatim>\<open>(seen, seen_avs, variables, updates)\<close>.\<close>

type_synonym discovery = "ann_ref set \<times> var set \<times> var list \<times> (var, var) odict"

fun visit_annotations :: "heap \<Rightarrow> ann_ref list \<Rightarrow> discovery \<Rightarrow> discovery" where
  "visit_annotations h [] st = st"
| "visit_annotations h (annotation # rest) (seen, seen_avs, vars, upds) =
     (if annotation \<notin> seen then
        (case unseen (auxiliary_variables (anns h annotation)) seen_avs of
           (new_avs, seen_avs') \<Rightarrow>
             visit_annotations h rest
               (insert annotation seen, seen_avs', vars @ new_avs,
                dict_union upds (updates (anns h annotation))))
      else visit_annotations h rest (seen, seen_avs, vars, upds))"

text \<open>The outer loop, over \<^verbatim>\<open>main_vars\<close>.\<close>

fun visit_vars :: "heap \<Rightarrow> var list \<Rightarrow> discovery \<Rightarrow> discovery" where
  "visit_vars h [] st = st"
| "visit_vars h (v # rest) (seen, seen_avs, vars, upds) =
     visit_vars h rest
       (visit_annotations h (get_annotations h v) (seen, seen_avs, vars @ [v], upds))"

definition main_vars :: "theano \<Rightarrow> heap \<Rightarrow> var list \<Rightarrow> var list" where
  "main_vars th h outs =
     (let inputs0 = graph_inputs th (owner h) outs;
          sorted_apply_nodes = sort_apply_nodes th (owner h) [inputs0] outs
      in fst (unseen (concat (map inputs sorted_apply_nodes)) {}) @ outs)"

text \<open>\<^verbatim>\<open>_get_variables\<close>: the values it stores in \<^verbatim>\<open>self.variables\<close> and \<^verbatim>\<open>self.updates\<close>.\<close>

definition get_variables :: "theano \<Rightarrow> heap \<Rightarrow> var list \<Rightarrow> var list \<times> (var, var) odict" where
  "get_variables th h outs =
     (let mv = main_vars th h outs in
      case visit_vars h mv ({}, set mv, [], []) of
        (seen, seen_avs, vars, upds) \<Rightarrow> (vars, upds))"

text \<open>\<^verbatim>\<open>__init__\<close> takes a variable or a list of variables.\<close>

datatype outputs_arg = One_variable var | Variable_list "var list"

definition ComputationGraph :: "theano \<Rightarrow> outputs_arg \<Rightarrow> state \<Rightarrow> cg_ref \<times> state" where
  "ComputationGraph th arg s =
     (let outs = (case arg of One_variable v \<Rightarrow> [v] | Variable_list l \<Rightarrow> l) in
      case get_variables th (hp s) outs of
        (vars, upds) \<Rightarrow>
          (length (cgs s),
           s\<lparr>cgs := cgs s @ [\<lparr>outputs = outs, variables = vars, cg_updates = upds\<rparr>]\<rparr>))"

text \<open>
  Modelled from the spec: \<^verbatim>\<open>is_graph_input\<close> and \<^verbatim>\<open>is_shared_variable\<close> of
  \<^verbatim>\<open>blocks.utils\<close>, which are not among the sources. A graph input is a variable without a
  producing operation that is neither stateful nor constant.
\<close>

definition is_graph_input :: "heap \<Rightarrow> var \<Rightarrow> bool" where
  "is_graph_input h v \<longleftrightarrow> owner h v = None \<and> kind h v = TensorVariable"

definition is_shared_variable :: "heap \<Rightarrow> var \<Rightarrow> bool" where
  "is_shared_variable h v = (case kind h v of SharedVariable shp \<Rightarrow> True | _ \<Rightarrow> False)"

definition cg_inputs :: "heap \<Rightarrow> computation_graph \<Rightarrow> var list" where
  "cg_inputs h g = filter (is_graph_input h) (variables g)"

definition cg_intermediary_variables :: "heap \<Rightarrow> computation_graph \<Rightarrow> var list" where
  "cg_intermediary_variables h g =
     filter (\<lambda>v. v \<notin> set (cg_inputs h g) \<and> v \<notin> set (outputs g)) (variables g)"

definition cg_shared_variables :: "heap \<Rightarrow> computation_graph \<Rightarrow> var list" where
  "cg_shared_variables h g = filter (is_shared_variable h) (variables g)"

definition cg_auxiliary_variables :: "heap \<Rightarrow> computation_graph \<Rightarrow> var list" where
  "cg_auxiliary_variables h g =
     filter (\<lambda>v. case roles (tags h (var_tag h v)) of
                   None \<Rightarrow> False | Some rs \<Rightarrow> AUXILIARY \<in> set rs) (variables g)"

definition replace :: "theano \<Rightarrow> cg_ref \<Rightarrow> (var, var) odict \<Rightarrow> state \<Rightarrow> cg_ref \<times> state" where
  "replace th self replacements s =
     (case clone th (hp s) (outputs (cgs s ! self)) replacements of
        (outs', h') \<Rightarrow> ComputationGraph th (Variable_list outs') (s\<lparr>hp := h'\<rparr>))"

text \<open>\<^verbatim>\<open>get_theano_function\<close>: the arguments it hands to \<^verbatim>\<open>theano.function\<close>. The
  additional updates are \<^verbatim>\<open>None\<close> or a list of pairs; \<^verbatim>\<open>None\<close> and the empty list are falsy.\<close>

record theano_function =
  fn_inputs :: "var list"
  fn_outputs :: "var list"
  fn_updates :: "(var, var) odict"

definition get_theano_function ::
  "heap \<Rightarrow> computation_graph \<Rightarrow> (var \<times> var) list option \<Rightarrow> theano_function" where
  "get_theano_function h g additional_updates =
     (let upds = cg_updates g;
          upds = (case additional_updates of
                    None \<Rightarrow> upds
                  | Some l \<Rightarrow> if l = [] then upds else dict_union upds (OrderedDict l))
      in \<lparr>fn_inputs = cg_inputs h g, fn_outputs = outputs g, fn_updates = upds\<rparr>)"

section \<open>Annotation.add_auxiliary_variable\<close>

text \<open>
  Modelled from the spec: \<^verbatim>\<open>add_role\<close> of \<^verbatim>\<open>blocks.roles\<close>, which is not among the
  sources. A role is a label attached to a node's metadata; adding one puts it into the
  \<^verbatim>\<open>roles\<close> list of the variable's tag, which \<^verbatim>\<open>ComputationGraph.auxiliary_variables\<close>
  reads.
\<close>

definition get_roles :: "heap \<Rightarrow> var \<Rightarrow> role list" where
  "get_roles h v = (case roles (tags h (var_tag h v)) of None \<Rightarrow> [] | Some l \<Rightarrow> l)"

definition add_role :: "var \<Rightarrow> role \<Rightarrow> heap \<Rightarrow> heap" where
  "add_role v r h =
     h\<lparr>tags := (tags h)(var_tag h v :=
          (tags h (var_tag h v))\<lparr>roles := Some (get_roles h v @ [r])\<rparr>)\<rparr>"

definition add_auxiliary_variable ::
  "ann_ref \<Rightarrow> var \<Rightarrow> role list option \<Rightarrow> string option \<Rightarrow> heap \<Rightarrow> error + heap" where
  "add_auxiliary_variable self expression rls name h =
     (case add_annotation expression self h of
        Inl e \<Rightarrow> Inl e
      | Inr h1 \<Rightarrow>
          let h2 = (case name of
                      None \<Rightarrow> h1
                    | Some n \<Rightarrow>
                        h1\<lparr>var_name := (var_name h1)(expression := Some n),
                           tags := (tags h1)(var_tag h1 expression :=
                             (tags h1 (var_tag h1 expression))\<lparr>tag_name := Some n\<rparr>)\<rparr>);
              h3 = add_role expression AUXILIARY h2;
              h4 = (case rls of None \<Rightarrow> h3 | Some l \<Rightarrow> fold (add_role expression) l h3)
          in Inr (h4\<lparr>anns := (anns h4)(self :=
                    (anns h4 self)\<lparr>auxiliary_variables :=
                       auxiliary_variables (anns h4 self) @ [expression]\<rparr>)\<rparr>))"

section \<open>apply\_noise\<close>

text \<open>
  The loop of \<^verbatim>\<open>apply_noise\<close>. Each perturbed variable gets three new variables: its
  shape, a draw of the random stream (the stream is made from the seed and counts its
  draws) and the sum. The loop state is the \<^verbatim>\<open>replace\<close> dictionary, the number of draws
  and the heap.
\<close>

fun add_noise ::
  "int \<Rightarrow> real \<Rightarrow> var list \<Rightarrow> (var, var) odict \<times> nat \<times> heap \<Rightarrow> (var, var) odict \<times> nat \<times> heap" where
  "add_noise seed level [] st = st"
| "add_noise seed level (variable # rest) (repl, n, h) =
     (case new_variable (Some \<lparr>op = Shape, inputs = [variable]\<rparr>) TensorVariable h of
        (shp, h1) \<Rightarrow>
     case new_variable (Some \<lparr>op = Normal seed n level, inputs = [shp]\<rparr>) TensorVariable h1 of
        (noise, h2) \<Rightarrow>
     case new_variable (Some \<lparr>op = Add, inputs = [variable, noise]\<rparr>) TensorVariable h2 of
        (noisy, h3) \<Rightarrow>
          add_noise seed level rest (od_setitem repl variable noisy, Suc n, h3))"

text \<open>\<^verbatim>\<open>config.default_seed\<close> is a parameter; the seed is \<^verbatim>\<open>None\<close> or an integer.\<close>

definition apply_noise ::
  "theano \<Rightarrow> int \<Rightarrow> cg_ref \<Rightarrow> var list \<Rightarrow> real \<Rightarrow> int option \<Rightarrow> state \<Rightarrow> cg_ref \<times> state" where
  "apply_noise th default_seed graph vs level seed s =
     (let seed = (case seed of
                    None \<Rightarrow> default_seed
                  | Some n \<Rightarrow> if n = 0 then default_seed else n)
      in case add_noise seed level vs ([], 0, hp s) of
           (repl, n, h') \<Rightarrow> replace th graph repl (s\<lparr>hp := h'\<rparr>))"

section \<open>collect\_parameters\<close>












section \<open>Example objects\<close>

text \<open>A heap of unnamed tensor variables without owners, every variable with a tag object of
  its own, and every annotation \<open>a\<close> an empty store of class \<open>a div 2\<close>: annotations
  0 and 1 are two instances of one class, annotation 2 is of another class.\<close>

definition heap0 :: heap where
  "heap0 = \<lparr>next_var = 10, next_tag = 10, owner = (\<lambda>_. None), kind = (\<lambda>_. TensorVariable),
            var_name = (\<lambda>_. None), var_tag = (\<lambda>v. v), tags = (\<lambda>_. empty_tag),
            anns = (\<lambda>a. \<lparr>ann_class = a div 2, auxiliary_variables = [], updates = []\<rparr>)\<rparr>"

text \<open>Variable 0 of \<open>heap0\<close> after annotation 0 was attached to it.\<close>

definition heap1 :: heap where
  "heap1 = heap0\<lparr>tags := (tags heap0)(0 := empty_tag\<lparr>annotations := Some [0]\<rparr>)\<rparr>"

text \<open>An instance of the theano primitives for the examples: the apply nodes that produce a
  variable, producers first, to a bounded depth; the roots under a variable; and a clone that
  substitutes at the outputs.\<close>

fun producers :: "nat \<Rightarrow> (var \<Rightarrow> apply_node option) \<Rightarrow> var \<Rightarrow> apply_node list" where
  "producers 0 ow v = []"
| "producers (Suc n) ow v =
     (case ow v of None \<Rightarrow> []
      | Some a \<Rightarrow> concat (map (producers n ow) (inputs a)) @ [a])"

fun roots :: "nat \<Rightarrow> (var \<Rightarrow> apply_node option) \<Rightarrow> var \<Rightarrow> var list" where
  "roots 0 ow v = []"
| "roots (Suc n) ow v =
     (case ow v of None \<Rightarrow> [v]
      | Some a \<Rightarrow> concat (map (roots n ow) (inputs a)))"

definition theano0 :: theano where
  "theano0 =
     \<lparr>graph_inputs = (\<lambda>ow outs. fst (unseen (concat (map (roots 4 ow) outs)) {})),
      sort_apply_nodes = (\<lambda>ow ins outs. fst (unseen (concat (map (producers 4 ow) outs)) {})),
      clone = (\<lambda>h outs repl.
                 (map (\<lambda>v. case map_of repl v of None \<Rightarrow> v | Some r \<Rightarrow> r) outs, h))\<rparr>"

text \<open>\<^verbatim>\<open>w = x + y; z = exp(w)\<close> with \<open>x, y, w, z\<close> the variables 0, 1, 2, 3.\<close>

definition heap_dup :: heap where
  "heap_dup =
     heap0\<lparr>owner := (\<lambda>v. if v = 2 then Some \<lparr>op = Add, inputs = [0, 1]\<rparr>
                         else if v = 3 then Some \<lparr>op = Op ''exp'', inputs = [2]\<rparr>
                         else None)\<rparr>"

text \<open>A graph whose merged updates assign the stateful variables 5 and 7.\<close>

definition graph_upd :: computation_graph where
  "graph_upd = \<lparr>outputs = [1], variables = [0, 1], cg_updates = [(5, 6), (7, 8)]\<rparr>"







section \<open>Attaching annotations\<close>

lemma add_annotation_dup:
  assumes "a1 \<in> set (get_annotations h v)"
    and "ann_class (anns h a2) = ann_class (anns h a1)"
  shows "add_annotation v a2 h = Inl ValueError"
  using assms by (auto simp: add_annotation_def list_ex_iff Let_def)

lemma add_annotation_new:
  assumes "\<forall>old \<in> set (get_annotations h v). ann_class (anns h old) \<noteq> ann_class (anns h a)"
  shows "\<exists>h'. add_annotation v a h = Inr h'
           \<and> get_annotations h' v = get_annotations h v @ [a]
           \<and> anns h' = anns h \<and> var_tag h' = var_tag h"
  using assms by (auto simp: add_annotation_def list_ex_iff get_annotations_def Let_def)

text \<open>
  Claim C2. Attaching an annotation to a node that already carries an annotation of the same
  concrete class raises (the code raises \<^verbatim>\<open>ValueError\<close>, the error the specification calls
  DuplicateAnnotation); attaching an annotation whose class is not yet present on the node
  succeeds and appends it to the node's annotation list.
\<close>

theorem add_annotation_same_kind_raises:
  "(a1 \<in> set (get_annotations h v) \<and> ann_class (anns h a2) = ann_class (anns h a1)
      \<longrightarrow> add_annotation v a2 h = Inl ValueError)
   \<and> ((\<forall>old \<in> set (get_annotations h v). ann_class (anns h old) \<noteq> ann_class (anns h a))
      \<longrightarrow> (\<exists>h'. add_annotation v a h = Inr h'
             \<and> get_annotations h' v = get_annotations h v @ [a]))"
  using add_annotation_dup add_annotation_new by blast

theorem add_annotation_same_kind_raises_witness:
  "(0 \<in> set (get_annotations heap1 0) \<and> ann_class (anns heap1 1) = ann_class (anns heap1 0))
   \<and> add_annotation 0 1 heap1 = Inl ValueError
   \<and> get_annotations heap1 0 = [0]
   \<and> ann_class (anns heap1 0) \<noteq> ann_class (anns heap1 2)
   \<and> (\<exists>h'. add_annotation 0 2 heap1 = Inr h'
         \<and> get_annotations h' 0 = get_annotations heap1 0 @ [2])"
  using add_annotation_same_kind_raises [of 0 heap1 0 1 2]
  by (simp add: heap1_def heap0_def get_annotations_def empty_tag_def)

section \<open>Ordered dictionaries\<close>

lemma map_of_od_setitem: "map_of (od_setitem d k v) = (map_of d)(k \<mapsto> v)"
  by (induction d k v rule: od_setitem.induct) (auto simp: fun_eq_iff)

lemma keys_od_setitem: "fst ` set (od_setitem d k v) = insert k (fst ` set d)"
  by (induction d k v rule: od_setitem.induct) auto

lemma distinct_od_setitem: "distinct (map fst d) \<Longrightarrow> distinct (map fst (od_setitem d k v))"
  by (induction d k v rule: od_setitem.induct) (auto simp: keys_od_setitem)

lemma map_of_od_update: "map_of (od_update d ps) = map_of d ++ map_of (rev ps)"
  unfolding od_update_def
  by (induction ps arbitrary: d)
     (auto simp: map_of_od_setitem fun_eq_iff map_add_def split: option.splits)

lemma distinct_od_update: "distinct (map fst d) \<Longrightarrow> distinct (map fst (od_update d ps))"
  unfolding od_update_def
  by (induction ps arbitrary: d) (auto simp: distinct_od_setitem)

lemma map_of_rev_distinct: "distinct (map fst d) \<Longrightarrow> map_of (rev d) = map_of d"
  by (subst map_of_inject_set) (simp_all add: rev_map[symmetric])

lemma map_of_dict_union:
  "distinct (map fst a) \<Longrightarrow> distinct (map fst b) \<Longrightarrow>
     map_of (dict_union a b) = map_of a ++ map_of b"
  by (simp add: dict_union_def map_of_od_update map_of_rev_distinct)

lemma distinct_dict_union: "distinct (map fst (dict_union a b))"
  by (simp add: dict_union_def distinct_od_update)

lemma distinct_OrderedDict: "distinct (map fst (OrderedDict l))"
  by (simp add: OrderedDict_def distinct_od_update)

section \<open>The update contract of the compiled function\<close>

lemma get_theano_function_updates:
  assumes "distinct (map fst (cg_updates g))"
  shows "map_of (fn_updates (get_theano_function h g (Some l))) =
           map_of (cg_updates g) ++ map_of (OrderedDict l)"
proof (cases "l = []")
  case True
  then show ?thesis
    by (simp add: get_theano_function_def OrderedDict_def od_update_def)
next
  case False
  then show ?thesis using assms
    by (simp add: get_theano_function_def Let_def map_of_dict_union distinct_OrderedDict)
qed

text \<open>
  Claim C7. \<^verbatim>\<open>get_theano_function\<close> hands to the compiler the graph's merged updates
  combined with the caller's additional updates: every key of either is there, and a key
  that both assign gets the caller's expression. (The graph's updates are a dictionary, one
  entry per key.) Without additional updates the graph's updates are handed over as they are.
\<close>

theorem get_theano_function_extra_updates_win:
  assumes "distinct (map fst (cg_updates g))"
  shows "map_of (fn_updates (get_theano_function h g (Some l))) =
           map_of (cg_updates g) ++ map_of (OrderedDict l)
         \<and> (map_of (OrderedDict l) k = Some e \<longrightarrow>
              map_of (fn_updates (get_theano_function h g (Some l))) k = Some e)
         \<and> (map_of (OrderedDict l) k = None \<longrightarrow>
              map_of (fn_updates (get_theano_function h g (Some l))) k = map_of (cg_updates g) k)
         \<and> fn_updates (get_theano_function h g None) = cg_updates g"
  using get_theano_function_updates [OF assms, of h l]
  by (simp add: map_add_def get_theano_function_def)

theorem get_theano_function_extra_updates_win_witness:
  "distinct (map fst (cg_updates graph_upd))
   \<and> map_of (cg_updates graph_upd) 7 = Some 8
   \<and> map_of (OrderedDict [(7::var, 9::var), (3, 4)]) 7 = Some 9
   \<and> map_of (fn_updates (get_theano_function heap0 graph_upd (Some [(7, 9), (3, 4)]))) 7 = Some 9
   \<and> map_of (OrderedDict [(7::var, 9::var), (3, 4)]) 5 = None
   \<and> map_of (fn_updates (get_theano_function heap0 graph_upd (Some [(7, 9), (3, 4)]))) 5 = Some 6"
proof -
  have d: "distinct (map fst (cg_updates graph_upd))"
    by (simp add: graph_upd_def)
  have o7: "map_of (OrderedDict [(7::var, 9::var), (3, 4)]) 7 = Some 9"
    by (simp add: OrderedDict_def od_update_def)
  have o5: "map_of (OrderedDict [(7::var, 9::var), (3, 4)]) 5 = None"
    by (simp add: OrderedDict_def od_update_def)
  have g5: "map_of (cg_updates graph_upd) 5 = Some 6"
    by (simp add: graph_upd_def)
  have g7: "map_of (cg_updates graph_upd) 7 = Some 8"
    by (simp add: graph_upd_def)
  from get_theano_function_extra_updates_win [OF d, of heap0 "[(7, 9), (3, 4)]" 7 9] o7
  have r7: "map_of (fn_updates (get_theano_function heap0 graph_upd (Some [(7, 9), (3, 4)]))) 7
              = Some 9"
    by blast
  from get_theano_function_extra_updates_win [OF d, of heap0 "[(7, 9), (3, 4)]" 5 9] o5 g5
  have r5: "map_of (fn_updates (get_theano_function heap0 graph_upd (Some [(7, 9), (3, 4)]))) 5
              = Some 6"
    by metis
  from d g7 o7 r7 o5 r5 show ?thesis by blast
qed

section \<open>Construction\<close>

text \<open>
  Claim C1, at the input of \<^verbatim>\<open>test_computation_graph_variable_duplicate\<close>: for
  \<^verbatim>\<open>w = x + y\<close>, \<^verbatim>\<open>z = exp(w)\<close> and the outputs \<^verbatim>\<open>[z, w]\<close>, the output \<open>w\<close> is in
  \<^verbatim>\<open>variables\<close> twice, once as the input of \<open>exp\<close> and once as an output.
\<close>

theorem variables_repeat_output_that_is_input:
  "(case ComputationGraph theano0 (Variable_list [3, 2]) \<lparr>hp = heap_dup, cgs = []\<rparr> of
      (g, s) \<Rightarrow> variables (cgs s ! g) = [0, 1, 2, 3, 2]
                \<and> \<not> distinct (variables (cgs s ! g)))"
  by (simp add: ComputationGraph_def get_variables_def main_vars_def theano0_def heap_dup_def
      heap0_def get_annotations_def empty_tag_def eval_nat_numeral Let_def)

text \<open>
  Claim C9. Constructing a graph from the bare variable \<open>x\<close> is constructing it from the
  one-element list \<open>[x]\<close>: the same reference and the same store result, so every view,
  \<^verbatim>\<open>inputs\<close> among them, is the same.
\<close>

theorem ComputationGraph_wraps_single_variable:
  "ComputationGraph th (One_variable x) s = ComputationGraph th (Variable_list [x]) s
   \<and> (case ComputationGraph th (One_variable x) s of (g1, s1) \<Rightarrow>
       case ComputationGraph th (Variable_list [x]) s of (g2, s2) \<Rightarrow>
         cg_inputs (hp s1) (cgs s1 ! g1) = cg_inputs (hp s2) (cgs s2 ! g2)
         \<and> outputs (cgs s1 ! g1) = [x])"
  by (simp add: ComputationGraph_def Let_def split: prod.splits)

section \<open>Noise\<close>

text \<open>
  Claim C10. A falsy seed, \<^verbatim>\<open>None\<close> or 0, is replaced by \<^verbatim>\<open>config.default_seed\<close>: the
  random stream is made from the default seed, and the call is the call with the default
  seed given explicitly.
\<close>

theorem apply_noise_falsy_seed_is_default:
  "apply_noise th default_seed g vs level (Some 0) s =
     (case add_noise default_seed level vs ([], 0, hp s) of
        (repl, n, h') \<Rightarrow> replace th g repl (s\<lparr>hp := h'\<rparr>))
   \<and> apply_noise th default_seed g vs level None s =
       apply_noise th default_seed g vs level (Some 0) s
   \<and> apply_noise th default_seed g vs level (Some default_seed) s =
       apply_noise th default_seed g vs level (Some 0) s"
  by (simp add: apply_noise_def)

section \<open>Properties of discovery\<close>

lemma unseen_seen: "snd (unseen xs S) = S \<union> set xs"
  by (induction xs S rule: unseen.induct) (auto simp: case_prod_unfold)




lemma visit_annotations_step:
  "a \<notin> seen \<Longrightarrow>
   visit_annotations h (a # as) (seen, sa, vars, upds) =
   visit_annotations h as
     (insert a seen, sa \<union> set (auxiliary_variables (anns h a)),
      vars @ fst (unseen (auxiliary_variables (anns h a)) sa),
      dict_union upds (updates (anns h a)))"
  using unseen_seen[of "auxiliary_variables (anns h a)" sa]
  by (simp add: case_prod_unfold)

lemma visit_annotations_skip:
  "a \<in> seen \<Longrightarrow>
   visit_annotations h (a # as) (seen, sa, vars, upds) =
   visit_annotations h as (seen, sa, vars, upds)"
  by simp

lemma visit_annotations_seen:
  "fst (visit_annotations h as (seen, sa, vars, upds)) = seen \<union> set as"
proof (induction as arbitrary: seen sa vars upds)
  case Nil
  show ?case by simp
next
  case (Cons a as)
  show ?case
  proof (cases "a \<in> seen")
    case True
    then show ?thesis unfolding visit_annotations_skip[OF True] Cons.IH by auto
  next
    case False
    then show ?thesis unfolding visit_annotations_step[OF False] Cons.IH by auto
  qed
qed


lemma visit_annotations_avs:
  "fst (snd (visit_annotations h as (seen, sa, vars, upds))) =
   sa \<union> (\<Union>a\<in>set as - seen. set (auxiliary_variables (anns h a)))"
proof (induction as arbitrary: seen sa vars upds)
  case Nil
  show ?case by simp
next
  case (Cons a as)
  show ?case
  proof (cases "a \<in> seen")
    case True
    then show ?thesis unfolding visit_annotations_skip[OF True] Cons.IH by auto
  next
    case False
    then show ?thesis unfolding visit_annotations_step[OF False] Cons.IH by auto
  qed
qed


lemma visit_vars_step:
  "visit_vars h (v # vs) (seen, sa, vars, upds) =
   visit_vars h vs
     (fst (visit_annotations h (get_annotations h v) (seen, sa, vars @ [v], upds)),
      fst (snd (visit_annotations h (get_annotations h v) (seen, sa, vars @ [v], upds))),
      fst (snd (snd (visit_annotations h (get_annotations h v) (seen, sa, vars @ [v], upds)))),
      snd (snd (snd (visit_annotations h (get_annotations h v) (seen, sa, vars @ [v], upds)))))"
  by simp

lemma visit_vars_seen:
  "fst (visit_vars h vs (seen, sa, vars, upds)) =
   seen \<union> (\<Union>v\<in>set vs. set (get_annotations h v))"
proof (induction vs arbitrary: seen sa vars upds)
  case Nil
  show ?case by simp
next
  case (Cons v vs)
  show ?case unfolding visit_vars_step Cons.IH visit_annotations_seen by auto
qed


lemma visit_vars_avs:
  "fst (snd (visit_vars h vs (seen, sa, vars, upds))) =
   sa \<union> (\<Union>a\<in>(\<Union>v\<in>set vs. set (get_annotations h v)) - seen.
            set (auxiliary_variables (anns h a)))"
proof (induction vs arbitrary: seen sa vars upds)
  case Nil
  show ?case by simp
next
  case (Cons v vs)
  show ?case unfolding visit_vars_step Cons.IH visit_annotations_seen visit_annotations_avs
    by auto
qed














section \<open>Replacement\<close>



section \<open>Auxiliary variables\<close>

lemma add_role_fields:
  "var_tag (add_role v r h) = var_tag h" "anns (add_role v r h) = anns h"
  "var_name (add_role v r h) = var_name h"
  "get_annotations (add_role v r h) = get_annotations h"
  "tag_name (tags (add_role v r h) t) = tag_name (tags h t)"
  "get_roles (add_role v r h) v = get_roles h v @ [r]"
  by (simp_all add: add_role_def get_annotations_def get_roles_def fun_eq_iff)

lemma fold_add_role_fields:
  "var_tag (fold (add_role v) l h) = var_tag h \<and> anns (fold (add_role v) l h) = anns h
   \<and> var_name (fold (add_role v) l h) = var_name h
   \<and> get_annotations (fold (add_role v) l h) = get_annotations h
   \<and> tag_name (tags (fold (add_role v) l h) t) = tag_name (tags h t)
   \<and> get_roles (fold (add_role v) l h) v = get_roles h v @ l"
  by (induction l arbitrary: h) (simp_all add: add_role_fields)

lemma add_auxiliary_variable_dup:
  assumes "a1 \<in> set (get_annotations h e)"
    and "ann_class (anns h a1) = ann_class (anns h self)"
  shows "add_auxiliary_variable self e rls name h = Inl ValueError"
  using add_annotation_dup[OF assms(1), of self] assms(2)
  by (simp add: add_auxiliary_variable_def)

lemma add_auxiliary_variable_ok:
  assumes "\<forall>old \<in> set (get_annotations h e). ann_class (anns h old) \<noteq> ann_class (anns h self)"
  shows "\<exists>h'. add_auxiliary_variable self e rls name h = Inr h'
           \<and> get_annotations h' e = get_annotations h e @ [self]
           \<and> var_name h' e = (case name of None \<Rightarrow> var_name h e | Some n \<Rightarrow> Some n)
           \<and> tag_name (tags h' (var_tag h' e)) =
               (case name of None \<Rightarrow> tag_name (tags h (var_tag h e)) | Some n \<Rightarrow> Some n)
           \<and> get_roles h' e =
               get_roles h e @ [AUXILIARY] @ (case rls of None \<Rightarrow> [] | Some l \<Rightarrow> l)
           \<and> auxiliary_variables (anns h' self) = auxiliary_variables (anns h self) @ [e]
           \<and> updates (anns h' self) = updates (anns h self)
           \<and> (\<forall>a. a \<noteq> self \<longrightarrow> anns h' a = anns h a)"
proof -
  define h1 where "h1 = h\<lparr>tags := (tags h)(var_tag h e :=
      (tags h (var_tag h e))\<lparr>annotations := Some (get_annotations h e @ [self])\<rparr>)\<rparr>"
  define h2 where "h2 = (case name of None \<Rightarrow> h1
      | Some n \<Rightarrow> h1\<lparr>var_name := (var_name h1)(e := Some n),
                     tags := (tags h1)(var_tag h1 e :=
                       (tags h1 (var_tag h1 e))\<lparr>tag_name := Some n\<rparr>)\<rparr>)"
  define h3 where "h3 = add_role e AUXILIARY h2"
  define h4 where "h4 = (case rls of None \<Rightarrow> h3 | Some l \<Rightarrow> fold (add_role e) l h3)"
  define h' where "h' = h4\<lparr>anns := (anns h4)(self :=
      (anns h4 self)\<lparr>auxiliary_variables := auxiliary_variables (anns h4 self) @ [e]\<rparr>)\<rparr>"
  have a: "add_annotation e self h = Inr h1"
    using assms by (simp add: add_annotation_def Let_def list_ex_iff h1_def)
  have r: "add_auxiliary_variable self e rls name h = Inr h'"
    by (simp only: add_auxiliary_variable_def a sum.case Let_def h2_def h3_def h4_def h'_def)
  have f1: "get_annotations h1 e = get_annotations h e @ [self]" "get_roles h1 e = get_roles h e"
    "var_tag h1 = var_tag h" "anns h1 = anns h" "var_name h1 = var_name h"
    "tag_name (tags h1 (var_tag h1 e)) = tag_name (tags h (var_tag h e))"
    by (simp_all add: h1_def get_annotations_def get_roles_def)
  have f2: "get_annotations h2 e = get_annotations h1 e" "get_roles h2 e = get_roles h1 e"
    "var_tag h2 = var_tag h1" "anns h2 = anns h1"
    "var_name h2 e = (case name of None \<Rightarrow> var_name h1 e | Some n \<Rightarrow> Some n)"
    "tag_name (tags h2 (var_tag h2 e)) =
       (case name of None \<Rightarrow> tag_name (tags h1 (var_tag h1 e)) | Some n \<Rightarrow> Some n)"
    by (simp_all add: h2_def get_annotations_def get_roles_def split: option.splits)
  have f3: "get_annotations h3 e = get_annotations h2 e"
    "get_roles h3 e = get_roles h2 e @ [AUXILIARY]"
    "var_tag h3 = var_tag h2" "anns h3 = anns h2" "var_name h3 = var_name h2"
    "tag_name (tags h3 (var_tag h3 e)) = tag_name (tags h2 (var_tag h2 e))"
    by (simp_all add: h3_def add_role_fields)
  have f4: "get_annotations h4 e = get_annotations h3 e"
    "get_roles h4 e = get_roles h3 e @ (case rls of None \<Rightarrow> [] | Some l \<Rightarrow> l)"
    "var_tag h4 = var_tag h3" "anns h4 = anns h3" "var_name h4 = var_name h3"
    "tag_name (tags h4 (var_tag h4 e)) = tag_name (tags h3 (var_tag h3 e))"
    by (simp_all add: h4_def fold_add_role_fields split: option.splits)
  have f5: "get_annotations h' e = get_annotations h4 e" "get_roles h' e = get_roles h4 e"
    "var_tag h' = var_tag h4" "var_name h' = var_name h4"
    "tag_name (tags h' (var_tag h' e)) = tag_name (tags h4 (var_tag h4 e))"
    "auxiliary_variables (anns h' self) = auxiliary_variables (anns h4 self) @ [e]"
    "updates (anns h' self) = updates (anns h4 self)"
    "\<forall>a. a \<noteq> self \<longrightarrow> anns h' a = anns h4 a"
    by (simp_all add: h'_def get_annotations_def get_roles_def)
  have vt: "var_tag h' = var_tag h"
    by (simp only: f5 f4 f3 f2 f1)
  have c1: "get_annotations h' e = get_annotations h e @ [self]"
    by (simp only: f5 f4 f3 f2 f1)
  have c2: "var_name h' e = (case name of None \<Rightarrow> var_name h e | Some n \<Rightarrow> Some n)"
    using f5(4) f4(5) f3(5) f2(5) f1(5) by (simp split: option.splits)
  have c3: "tag_name (tags h' (var_tag h' e)) =
      (case name of None \<Rightarrow> tag_name (tags h (var_tag h e)) | Some n \<Rightarrow> Some n)"
    using f5(5) f4(6) f3(6) f2(6) f1(6) by (simp split: option.splits)
  have c4: "get_roles h' e =
      get_roles h e @ [AUXILIARY] @ (case rls of None \<Rightarrow> [] | Some l \<Rightarrow> l)"
    using f5(2) f4(2) f3(2) f2(2) f1(2) by simp
  have an: "anns h4 = anns h"
    by (simp only: f4 f3 f2 f1)
  have c5: "auxiliary_variables (anns h' self) = auxiliary_variables (anns h self) @ [e]"
    using f5(6) an by simp
  have c6: "updates (anns h' self) = updates (anns h self)"
    using f5(7) an by simp
  have c7: "\<forall>a. a \<noteq> self \<longrightarrow> anns h' a = anns h a"
    using f5(8) an by simp
  from r c1 c2 c3 c4 c5 c6 c7 show ?thesis by blast
qed

text \<open>
  Claim C5. \<^verbatim>\<open>add_auxiliary_variable\<close> attaches the store to the expression, and fails
  where \<^verbatim>\<open>add_annotation\<close> fails: when an annotation of the store's class is attached to
  the expression already. Otherwise the expression gets the name, when one is given; its
  roles get \<open>AUXILIARY\<close> and then the caller's roles; and the expression becomes the last
  element of the store's \<^verbatim>\<open>auxiliary_variables\<close>.
\<close>

theorem add_auxiliary_variable_effects:
  "(a1 \<in> set (get_annotations h e) \<and> ann_class (anns h a1) = ann_class (anns h self)
      \<longrightarrow> add_auxiliary_variable self e rls name h = Inl ValueError)
   \<and> ((\<forall>old \<in> set (get_annotations h e). ann_class (anns h old) \<noteq> ann_class (anns h self))
      \<longrightarrow> (\<exists>h'. add_auxiliary_variable self e rls name h = Inr h'
             \<and> get_annotations h' e = get_annotations h e @ [self]
             \<and> var_name h' e = (case name of None \<Rightarrow> var_name h e | Some n \<Rightarrow> Some n)
             \<and> tag_name (tags h' (var_tag h' e)) =
                 (case name of None \<Rightarrow> tag_name (tags h (var_tag h e)) | Some n \<Rightarrow> Some n)
             \<and> get_roles h' e =
                 get_roles h e @ [AUXILIARY] @ (case rls of None \<Rightarrow> [] | Some l \<Rightarrow> l)
             \<and> AUXILIARY \<in> set (get_roles h' e)
             \<and> set (case rls of None \<Rightarrow> [] | Some l \<Rightarrow> l) \<subseteq> set (get_roles h' e)
             \<and> auxiliary_variables (anns h' self) = auxiliary_variables (anns h self) @ [e]
             \<and> last (auxiliary_variables (anns h' self)) = e))"
proof (intro conjI impI)
  assume "a1 \<in> set (get_annotations h e) \<and> ann_class (anns h a1) = ann_class (anns h self)"
  then show "add_auxiliary_variable self e rls name h = Inl ValueError"
    using add_auxiliary_variable_dup by blast
next
  assume "\<forall>old \<in> set (get_annotations h e). ann_class (anns h old) \<noteq> ann_class (anns h self)"
  from add_auxiliary_variable_ok [OF this, of rls name]
  obtain h' where h': "add_auxiliary_variable self e rls name h = Inr h'"
    "get_annotations h' e = get_annotations h e @ [self]"
    "var_name h' e = (case name of None \<Rightarrow> var_name h e | Some n \<Rightarrow> Some n)"
    "tag_name (tags h' (var_tag h' e)) =
       (case name of None \<Rightarrow> tag_name (tags h (var_tag h e)) | Some n \<Rightarrow> Some n)"
    "get_roles h' e = get_roles h e @ [AUXILIARY] @ (case rls of None \<Rightarrow> [] | Some l \<Rightarrow> l)"
    "auxiliary_variables (anns h' self) = auxiliary_variables (anns h self) @ [e]"
    by blast
  have r1: "AUXILIARY \<in> set (get_roles h' e)"
    by (simp add: h'(5))
  have r2: "set (case rls of None \<Rightarrow> [] | Some l \<Rightarrow> l) \<subseteq> set (get_roles h' e)"
    unfolding h'(5) by auto
  have r3: "last (auxiliary_variables (anns h' self)) = e"
    by (simp add: h'(6))
  from h' r1 r2 r3
  show "\<exists>h'. add_auxiliary_variable self e rls name h = Inr h'
          \<and> get_annotations h' e = get_annotations h e @ [self]
          \<and> var_name h' e = (case name of None \<Rightarrow> var_name h e | Some n \<Rightarrow> Some n)
          \<and> tag_name (tags h' (var_tag h' e)) =
              (case name of None \<Rightarrow> tag_name (tags h (var_tag h e)) | Some n \<Rightarrow> Some n)
          \<and> get_roles h' e =
              get_roles h e @ [AUXILIARY] @ (case rls of None \<Rightarrow> [] | Some l \<Rightarrow> l)
          \<and> AUXILIARY \<in> set (get_roles h' e)
          \<and> set (case rls of None \<Rightarrow> [] | Some l \<Rightarrow> l) \<subseteq> set (get_roles h' e)
          \<and> auxiliary_variables (anns h' self) = auxiliary_variables (anns h self) @ [e]
          \<and> last (auxiliary_variables (anns h' self)) = e"
    by blast
qed

theorem add_auxiliary_variable_effects_witness:
  "get_annotations heap1 0 = [0]
   \<and> ann_class (anns heap1 0) = ann_class (anns heap1 1)
   \<and> add_auxiliary_variable 1 0 (Some [Role 3]) (Some ''x_plus_1'') heap1 = Inl ValueError
   \<and> ann_class (anns heap1 0) \<noteq> ann_class (anns heap1 2)
   \<and> (\<exists>h'. add_auxiliary_variable 2 0 (Some [Role 3]) (Some ''x_plus_1'') heap1 = Inr h'
         \<and> get_annotations h' 0 = [0, 2]
         \<and> var_name h' 0 = Some ''x_plus_1''
         \<and> get_roles h' 0 = [AUXILIARY, Role 3]
         \<and> auxiliary_variables (anns h' 2) = [0])"
proof -
  have g: "get_annotations heap1 0 = [0]"
    by (simp add: heap1_def heap0_def get_annotations_def empty_tag_def)
  have c1: "ann_class (anns heap1 0) = ann_class (anns heap1 1)"
    by (simp add: heap1_def heap0_def)
  have c2: "ann_class (anns heap1 0) \<noteq> ann_class (anns heap1 2)"
    by (simp add: heap1_def heap0_def)
  have r: "get_roles heap1 0 = []" "auxiliary_variables (anns heap1 2) = []"
    by (simp_all add: heap1_def heap0_def get_roles_def empty_tag_def)
  from add_auxiliary_variable_effects
         [where h = heap1 and e = 0 and self = 1 and ?a1.0 = 0
            and rls = "Some [Role 3]" and name = "Some ''x_plus_1''"] g c1
  have f: "add_auxiliary_variable 1 0 (Some [Role 3]) (Some ''x_plus_1'') heap1 = Inl ValueError"
    by simp
  from add_auxiliary_variable_effects
         [where h = heap1 and e = 0 and self = 2
            and rls = "Some [Role 3]" and name = "Some ''x_plus_1''"] g c2
  obtain h' where "add_auxiliary_variable 2 0 (Some [Role 3]) (Some ''x_plus_1'') heap1 = Inr h'"
    "get_annotations h' 0 = get_annotations heap1 0 @ [2]"
    "var_name h' 0 = Some ''x_plus_1''"
    "get_roles h' 0 = get_roles heap1 0 @ [AUXILIARY] @ [Role 3]"
    "auxiliary_variables (anns h' 2) = auxiliary_variables (anns heap1 2) @ [0]"
    by auto
  with g r have "\<exists>h'. add_auxiliary_variable 2 0 (Some [Role 3]) (Some ''x_plus_1'') heap1 = Inr h'
         \<and> get_annotations h' 0 = [0, 2]
         \<and> var_name h' 0 = Some ''x_plus_1''
         \<and> get_roles h' 0 = [AUXILIARY, Role 3]
         \<and> auxiliary_variables (anns h' 2) = [0]"
    by auto
  with g c1 c2 f show ?thesis by blast
qed

section \<open>Collected parameters\<close>


















end
